theory Spec2Isabelle
  imports Complex_Main "HOL-Library.Char_ord" "HOL-Library.List_Lexorder" "HOL-Library.Sublist"
begin

section \<open>Numbers and the currency formatter\<close>

text \<open>
  The amounts the dashboard formats are Python or numpy numbers. A finite number is
  modelled by its exact rational value (\<open>Fin\<close>); the float64 specials \<open>nan\<close>, \<open>inf\<close> and
  \<open>-inf\<close> are values of their own. Arithmetic on \<open>Fin\<close> is exact, where float64 rounds to
  53 bits; the two agree on every number used below in a concrete computation. They differ
  where binary rounding breaks a decimal tie: 2675 is shown as \<open>$2.67K\<close> by the script
  (2675/1000 is a float64 just below 2.675) and as \<open>$2.68K\<close> by the model.
  Python's \<open>None\<close> is the \<open>None\<close> of \<open>pynum option\<close>.
\<close>

datatype pynum = NaN | NegInf | Fin rat | PosInf

text \<open>\<open>a >= c\<close> for a finite constant \<open>c\<close>: every comparison with \<open>nan\<close> is false.\<close>

fun num_ge :: "pynum \<Rightarrow> rat \<Rightarrow> bool" where
  "num_ge NaN c = False"
| "num_ge NegInf c = False"
| "num_ge (Fin x) c = (c \<le> x)"
| "num_ge PosInf c = True"

text \<open>\<open>a / c\<close> for a finite positive constant \<open>c\<close>.\<close>

fun num_div :: "pynum \<Rightarrow> rat \<Rightarrow> pynum" where
  "num_div NaN c = NaN"
| "num_div NegInf c = NegInf"
| "num_div (Fin x) c = Fin (x / c)"
| "num_div PosInf c = PosInf"

definition digit :: "nat \<Rightarrow> char" where
  "digit d = ''0123456789'' ! d"

fun digits :: "nat \<Rightarrow> string" where
  "digits n = (if n < 10 then [digit n] else digits (n div 10) @ [digit (n mod 10)])"

declare digits.simps [simp del]

text \<open>Rounding a non-negative rational to the nearest integer, ties to even.\<close>

definition round_half_even :: "rat \<Rightarrow> nat" where
  "round_half_even q =
     (let f = \<lfloor>q\<rfloor>; r = q - of_int f
      in nat (if 1 / 2 < r \<or> (r = 1 / 2 \<and> odd f) then f + 1 else f))"

text \<open>
  The format specification \<open>:.2f\<close>: the sign of the value itself (\<open>-0.001\<close> prints as
  \<open>-0.00\<close>), the integer part, a point and two decimals.
\<close>

fun fmt2f :: "pynum \<Rightarrow> string" where
  "fmt2f NaN = ''nan''"
| "fmt2f NegInf = ''-inf''"
| "fmt2f PosInf = ''inf''"
| "fmt2f (Fin x) =
     (let n = round_half_even (\<bar>x\<bar> * 100)
      in (if x < 0 then ''-'' else []) @ digits (n div 100) @ ''.''
         @ [digit (n div 10 mod 10), digit (n mod 10)])"

text \<open>
  \<^verbatim>\<open>
  def format_currency(amount):
      if amount is None or pd.isna(amount) or amount == 0:
          return "$0"
      if amount >= 1_000_000_000:
          return f"${amount/1_000_000_000:.2f}B"
      elif amount >= 1_000_000:
          return f"${amount/1_000_000:.2f}M"
      elif amount >= 1_000:
          return f"${amount/1_000:.2f}K"
      else:
          return f"${amount:.2f}"
  \<close>
\<close>

definition format_currency :: "pynum option \<Rightarrow> string" where
  "format_currency amount =
     (case amount of
        None \<Rightarrow> ''$0''
      | Some a \<Rightarrow>
          if a = NaN \<or> a = Fin 0 then ''$0''
          else if num_ge a 1000000000 then ''$'' @ fmt2f (num_div a 1000000000) @ ''B''
          else if num_ge a 1000000 then ''$'' @ fmt2f (num_div a 1000000) @ ''M''
          else if num_ge a 1000 then ''$'' @ fmt2f (num_div a 1000) @ ''K''
          else ''$'' @ fmt2f a)"

section \<open>Data frames\<close>

text \<open>
  A pandas \<open>DataFrame\<close> is modelled by its column labels and its rows, in order; the row
  labels (the index) are not modelled, so \<open>reset_index(drop=True)\<close> is the identity.
  A cell is a missing value (\<open>NaN\<close> or \<open>None\<close>, what \<open>pd.isna\<close> recognises), a
  finite number or a string. Frames are rectangular in pandas; a cell read beyond the end of a
  row of the model is a missing value. Of the dtypes only the distinction that the script
  can observe is kept: \<open>object_cols\<close> lists the columns of dtype \<open>object\<close> (the string
  columns), every other column has a numeric dtype. Selecting rows keeps the dtypes.
  Integers do not wrap: the model adds exactly where \<open>int64\<close> overflows.
\<close>

datatype cell = Null | is_Num: Num (num_of: rat) | is_Str: Str (str_of: string)

datatype error = KeyError "string list" | TypeError | ValueError string

record table =
  columns :: "string list"
  object_cols :: "string list"
  rows :: "cell list list"

fun index_of :: "string \<Rightarrow> string list \<Rightarrow> nat" where
  "index_of c [] = 0"
| "index_of c (x # xs) = (if x = c then 0 else Suc (index_of c xs))"

definition cell_at :: "cell list \<Rightarrow> nat \<Rightarrow> cell" where
  "cell_at r i = (if i < length r then r ! i else Null)"

text \<open>The value of column \<open>c\<close> in a row of table \<open>t\<close>.\<close>

definition field :: "table \<Rightarrow> string \<Rightarrow> cell list \<Rightarrow> cell" where
  "field t c r = cell_at r (index_of c (columns t))"

text \<open>\<open>df[c]\<close>: the column as a list of cells, or \<open>KeyError\<close>.\<close>

definition getcol :: "table \<Rightarrow> string \<Rightarrow> error + cell list" where
  "getcol t c =
     (if c \<in> set (columns t) then Inr (map (field t c) (rows t)) else Inl (KeyError [c]))"

text \<open>\<open>series.isin(values)\<close>: a boolean per cell; a missing value is in a list that holds one.\<close>

definition isin :: "cell list \<Rightarrow> cell list \<Rightarrow> bool list" where
  "isin vs xs = map (\<lambda>v. v \<in> set xs) vs"

text \<open>\<open>df[mask]\<close>: the rows whose mask entry is true, in order, with every column.\<close>

definition mask_rows :: "table \<Rightarrow> bool list \<Rightarrow> table" where
  "mask_rows t bs = t\<lparr>rows := map fst (filter snd (zip (rows t) bs))\<rparr>"

text \<open>\<open>series.unique()\<close> keeps the first occurrence of each value.\<close>

definition unique :: "cell list \<Rightarrow> cell list" where
  "unique vs = rev (remdups (rev vs))"

definition dropna :: "cell list \<Rightarrow> cell list" where
  "dropna vs = filter (\<lambda>v. v \<noteq> Null) vs"

text \<open>
  Python's \<open>sorted\<close> on the values of a column. Strings compare with strings and numbers
  with numbers; comparing a string with a number or with a missing value raises
  \<open>TypeError\<close>, which happens exactly when the list holds a string and a non-string.
  \<open>NaN\<close> among numbers does not raise; Python leaves the resulting order unspecified, and
  the model puts the missing values first.
\<close>

definition sorted_py :: "cell list \<Rightarrow> error + cell list" where
  "sorted_py xs =
     (if list_all is_Str xs then Inr (map Str (sort (map str_of xs)))
      else if list_ex is_Str xs then Inl TypeError
      else Inr (filter (\<lambda>v. v = Null) xs @ map Num (sort (map num_of (filter is_Num xs)))))"

text \<open>
  \<open>series.sum()\<close> skips missing values; the sum of no value is 0. On a column that holds a
  string the sum is a string or raises, and \<open>format_currency\<close> raises \<open>TypeError\<close> on a
  string (\<open>amount >= 1_000_000_000\<close>), so that the statement that formats the sum raises
  \<open>TypeError\<close> either way.
\<close>

definition col_sum :: "cell list \<Rightarrow> error + rat" where
  "col_sum vs =
     (if list_ex is_Str vs then Inl TypeError
      else Inr (sum_list (map num_of (filter is_Num vs))))"

text \<open>\<open>df.empty\<close>: one of the axes has length 0.\<close>

definition empty_df :: "table \<Rightarrow> bool" where
  "empty_df t = (rows t = [] \<or> columns t = [])"

text \<open>\<open>df[cols]\<close> with a list of labels: \<open>KeyError\<close> with the labels that are missing.\<close>

definition select_cols :: "table \<Rightarrow> string list \<Rightarrow> error + table" where
  "select_cols t cs =
     (case filter (\<lambda>c. c \<notin> set (columns t)) cs of
        [] \<Rightarrow> Inr \<lparr>columns = cs,
                   object_cols = filter (\<lambda>c. c \<in> set (object_cols t)) cs,
                   rows = map (\<lambda>r. map (\<lambda>c. field t c r) cs) (rows t)\<rparr>
      | missing \<Rightarrow> Inl (KeyError missing))"

text \<open>
  \<open>df.nlargest(n, c)\<close> with the default \<open>keep='first'\<close>: \<open>KeyError\<close> for a missing
  column, \<open>TypeError\<close> for a column that is not numeric (its dtype is \<open>object\<close>, or it
  holds a string); otherwise the rows with a value, in descending order of the value, rows of equal value in their
  original order, followed by the rows with a missing value in their original order, and of
  all these the first \<open>n\<close>.
\<close>

definition nlargest :: "nat \<Rightarrow> string \<Rightarrow> table \<Rightarrow> error + table" where
  "nlargest n c t =
     (case getcol t c of
        Inl e \<Rightarrow> Inl e
      | Inr vs \<Rightarrow>
          if c \<in> set (object_cols t) \<or> list_ex is_Str vs then Inl TypeError
          else
            let dropped = filter (\<lambda>r. field t c r \<noteq> Null) (rows t);
                nan_rows = filter (\<lambda>r. field t c r = Null) (rows t)
            in Inr (t\<lparr>rows := take n (sort_key (\<lambda>r. - num_of (field t c r)) dropped @ nan_rows)\<rparr>))"

text \<open>
  \<open>pd.merge(l, r, on=k, how='left')\<close>: for each row of \<open>l\<close>, in order, one output row
  per row of \<open>r\<close> with the same key (in the order of \<open>r\<close>), or one output row with
  missing values when there is none. Missing keys match each other. A label other than the
  key that both frames have gets the suffixes \<open>_x\<close> and \<open>_y\<close>. pandas refuses to
  merge a key of strings with a key of numbers (\<open>ValueError\<close>); the model does not, and
  the statements below about runs that return ask for string keys.
\<close>

definition right_part :: "table \<Rightarrow> string \<Rightarrow> cell list \<Rightarrow> cell list" where
  "right_part r k rr = map (\<lambda>c. field r c rr) (filter (\<lambda>c. c \<noteq> k) (columns r))"

definition join_row :: "table \<Rightarrow> table \<Rightarrow> string \<Rightarrow> cell list \<Rightarrow> cell list list" where
  "join_row l r k lr =
     (case filter (\<lambda>rr. field r k rr = field l k lr) (rows r) of
        [] \<Rightarrow> [lr @ replicate (length (filter (\<lambda>c. c \<noteq> k) (columns r))) Null]
      | ms \<Rightarrow> map (\<lambda>rr. lr @ right_part r k rr) ms)"

definition merge_left :: "table \<Rightarrow> table \<Rightarrow> string \<Rightarrow> error + table" where
  "merge_left l r k =
     (if k \<in> set (columns l) \<and> k \<in> set (columns r) then
        Inr \<lparr>columns =
               map (\<lambda>c. if c \<noteq> k \<and> c \<in> set (columns r) then c @ ''_x'' else c) (columns l)
               @ map (\<lambda>c. if c \<in> set (columns l) then c @ ''_y'' else c)
                   (filter (\<lambda>c. c \<noteq> k) (columns r)),
             object_cols =
               map (\<lambda>c. if c \<noteq> k \<and> c \<in> set (columns r) then c @ ''_x'' else c)
                 (object_cols l)
               @ map (\<lambda>c. if c \<in> set (columns l) then c @ ''_y'' else c)
                   (filter (\<lambda>c. c \<noteq> k) (object_cols r)),
             rows = concat (map (join_row l r k) (rows l))\<rparr>
      else Inl (KeyError [k]))"

section \<open>The pipeline of \<open>app.py\<close>\<close>

text \<open>
  The script is modelled from the sidebar filters (line 81) to the rankings (line 166), as a
  function of the four loaded tables and of the two selections the \<open>multiselect\<close> widgets
  return. The calls that only render (\<open>st.markdown\<close>, \<open>st.dataframe\<close>,
  \<open>st.plotly_chart\<close>, \<open>px.bar\<close>, \<open>Styler.format\<close>) are outside the model; the
  frame operations in their arguments are inside, and so is the check of \<open>px.bar\<close> that
  the columns it is asked to plot exist. An exception is not caught anywhere in the script,
  so the first one ends the run: the model returns it as \<open>Inl\<close>.
\<close>

text \<open>Line 81: \<open>protocols = sorted(df_protocols_tvl['Protocol'].unique())\<close>.\<close>

definition protocols_of :: "table \<Rightarrow> error + cell list" where
  "protocols_of tvl =
     (case getcol tvl ''Protocol'' of
        Inl e \<Rightarrow> Inl e
      | Inr ps \<Rightarrow> sorted_py (unique ps))"

text \<open>Line 82: the default of the protocol widget.\<close>

definition default_protocols :: "cell list \<Rightarrow> cell list" where
  "default_protocols protocols = (if 5 < length protocols then take 5 protocols else protocols)"

text \<open>
  Lines 84 to 86:
  \<^verbatim>\<open>
  categories = []
  if 'Category' in df_protocols_tvl.columns:
      categories = sorted(df_protocols_tvl['Category'].dropna().unique())
  \<close>
\<close>

definition categories_of :: "table \<Rightarrow> error + cell list" where
  "categories_of tvl =
     (if ''Category'' \<in> set (columns tvl) then
        (case getcol tvl ''Category'' of
           Inl e \<Rightarrow> Inl e
         | Inr cs \<Rightarrow> sorted_py (unique (dropna cs)))
      else Inr [])"

text \<open>
  \<open>st.sidebar.multiselect(label, options, default)\<close> returns a list of chosen options:
  what it returns is among the options it was given.
\<close>

definition multiselect_ok :: "cell list \<Rightarrow> cell list \<Rightarrow> bool" where
  "multiselect_ok options selected = list_all (\<lambda>v. v \<in> set options) selected"

text \<open>
  Line 90:
  \<open>filtered_tvl = df_protocols_tvl[df_protocols_tvl['Protocol'].isin(selected_protocols)]\<close>.
\<close>

definition protocol_filter :: "table \<Rightarrow> cell list \<Rightarrow> error + table" where
  "protocol_filter tvl selected_protocols =
     (case getcol tvl ''Protocol'' of
        Inl e \<Rightarrow> Inl e
      | Inr ps \<Rightarrow> Inr (mask_rows tvl (isin ps selected_protocols)))"

text \<open>
  Lines 91 and 92:
  \<^verbatim>\<open>
  if selected_categories:
      filtered_tvl = filtered_tvl[filtered_tvl['Category'].isin(selected_categories)]
  \<close>
\<close>

definition category_filter :: "table \<Rightarrow> cell list \<Rightarrow> error + table" where
  "category_filter filtered_tvl selected_categories =
     (if selected_categories \<noteq> [] then
        (case getcol filtered_tvl ''Category'' of
           Inl e \<Rightarrow> Inl e
         | Inr cs \<Rightarrow> Inr (mask_rows filtered_tvl (isin cs selected_categories)))
      else Inr filtered_tvl)"

text \<open>Lines 90 to 92 together.\<close>

definition filter_tvl :: "table \<Rightarrow> cell list \<Rightarrow> cell list \<Rightarrow> error + table" where
  "filter_tvl tvl selected_protocols selected_categories =
     (case protocol_filter tvl selected_protocols of
        Inl e \<Rightarrow> Inl e
      | Inr ft \<Rightarrow> category_filter ft selected_categories)"

text \<open>
  Lines 94 to 96, for each of the fees, revenue and market tables:
  \<open>df[df['Protocol'].isin(filtered_tvl['Protocol'])]\<close>.
\<close>

definition filter_by_keys :: "table \<Rightarrow> table \<Rightarrow> error + table" where
  "filter_by_keys t filtered_tvl =
     (case getcol t ''Protocol'' of
        Inl e \<Rightarrow> Inl e
      | Inr ps \<Rightarrow>
          (case getcol filtered_tvl ''Protocol'' of
             Inl e \<Rightarrow> Inl e
           | Inr ks \<Rightarrow> Inr (mask_rows t (isin ps ks))))"

text \<open>
  Lines 99 to 117, the three cards: \<open>str(len(filtered_tvl))\<close>,
  \<open>format_currency(filtered_tvl['TVL (USD)'].sum())\<close> and
  \<open>format_currency(filtered_market['Market Cap (USD)'].sum()
     if 'Market Cap (USD)' in filtered_market.columns else 0)\<close>.
\<close>

definition total_market_cap :: "table \<Rightarrow> error + rat" where
  "total_market_cap filtered_market =
     (if ''Market Cap (USD)'' \<in> set (columns filtered_market) then
        (case getcol filtered_market ''Market Cap (USD)'' of
           Inl e \<Rightarrow> Inl e
         | Inr vs \<Rightarrow> col_sum vs)
      else Inr 0)"

definition kpis :: "table \<Rightarrow> table \<Rightarrow> error + string \<times> string \<times> string" where
  "kpis filtered_tvl filtered_market =
     (case getcol filtered_tvl ''TVL (USD)'' of
        Inl e \<Rightarrow> Inl e
      | Inr vs \<Rightarrow>
          (case col_sum vs of
             Inl e \<Rightarrow> Inl e
           | Inr tvl_sum \<Rightarrow>
               (case total_market_cap filtered_market of
                  Inl e \<Rightarrow> Inl e
                | Inr cap \<Rightarrow>
                    Inr (digits (length (rows filtered_tvl)),
                         format_currency (Some (Fin tvl_sum)),
                         format_currency (Some (Fin cap))))))"

text \<open>
  Lines 121 to 135, the overview: the columns to show, the left join
  \<open>overview_df = pd.merge(filtered_tvl, filtered_market, on='Protocol', how='left')\<close>
  and the selection \<open>overview_df[overview_cols]\<close>.
\<close>

definition overview_cols :: "table \<Rightarrow> table \<Rightarrow> string list" where
  "overview_cols filtered_tvl filtered_market =
     filter (\<lambda>c. c \<in> set (columns filtered_tvl)) [''Protocol'', ''Category'', ''TVL (USD)'']
     @ (if ''Market Cap (USD)'' \<in> set (columns filtered_market) then [''Market Cap (USD)''] else [])
     @ (if ''Current Price (USD)'' \<in> set (columns filtered_market)
        then [''Current Price (USD)''] else [])"

definition overview :: "table \<Rightarrow> table \<Rightarrow> error + table \<times> table" where
  "overview filtered_tvl filtered_market =
     (case merge_left filtered_tvl filtered_market ''Protocol'' of
        Inl e \<Rightarrow> Inl e
      | Inr overview_df \<Rightarrow>
          (case select_cols overview_df (overview_cols filtered_tvl filtered_market) of
             Inl e \<Rightarrow> Inl e
           | Inr shown \<Rightarrow> Inr (overview_df, shown)))"

text \<open>
  \<open>px.bar(df, x=..., y=..., color=...)\<close>: each of the names must be a column of the
  frame, whatever its rows; the first that is not raises \<open>ValueError\<close>. What the chart
  looks like is not modelled.
\<close>

definition px_bar :: "table \<Rightarrow> string list \<Rightarrow> error + unit" where
  "px_bar df names =
     (case filter (\<lambda>c. c \<notin> set (columns df)) names of
        [] \<Rightarrow> Inr ()
      | c # _ \<Rightarrow> Inl (ValueError c))"

text \<open>
  Lines 141 to 142, 152 to 155 and 161 to 164, the rankings and their charts. The revenue and
  fees rankings are computed only for a table that is not empty; the columns they are shown
  with are selected and the chart is drawn at once; \<open>None\<close> is a ranking that was not
  computed.
  \<^verbatim>\<open>
  top_tvl = filtered_tvl.nlargest(10, 'TVL (USD)')
  fig = px.bar(top_tvl, x='Protocol', y='TVL (USD)', color='Category', ...)
  if not filtered_revenue.empty:
      top_revenue = filtered_revenue.nlargest(10, '24h Revenue (USD)')
      st.dataframe(top_revenue[['Protocol', '24h Revenue (USD)', ...]]...)
      fig_rev = px.bar(top_revenue, x='Protocol', y='24h Revenue (USD)', ...)
  \<close>
\<close>

definition top_guarded :: "table \<Rightarrow> string \<Rightarrow> string list \<Rightarrow> error + table option" where
  "top_guarded filtered c shown_cols =
     (if \<not> empty_df filtered then
        (case nlargest 10 c filtered of
           Inl e \<Rightarrow> Inl e
         | Inr ranked \<Rightarrow>
             (case select_cols ranked shown_cols of
                Inl e \<Rightarrow> Inl e
              | Inr shown \<Rightarrow>
                  (case px_bar ranked [''Protocol'', c] of
                     Inl e \<Rightarrow> Inl e
                   | Inr drawn \<Rightarrow> Inr (Some ranked))))
      else Inr None)"

definition revenue_cols :: "string list" where
  "revenue_cols = [''Protocol'', ''24h Revenue (USD)'', ''7d Revenue (USD)'',
                   ''30d Revenue (USD)'', ''Total Revenue (USD)'']"

definition fees_cols :: "string list" where
  "fees_cols = [''Protocol'', ''24h Fees (USD)'', ''7d Fees (USD)'',
                ''30d Fees (USD)'', ''Total Fees (USD)'']"

record dashboard =
  filtered_tvl :: table
  filtered_fees :: table
  filtered_revenue :: table
  filtered_market :: table
  kpi_protocols :: string
  kpi_tvl :: string
  kpi_market_cap :: string
  overview_df :: table
  overview_shown :: table
  top_tvl :: table
  top_revenue :: "table option"
  top_fees :: "table option"

text \<open>Lines 139 to 166 on the filtered tables.\<close>

definition rankings ::
  "table \<Rightarrow> table \<Rightarrow> table \<Rightarrow> error + table \<times> table option \<times> table option" where
  "rankings ftvl frev ffees =
     (case nlargest 10 ''TVL (USD)'' ftvl of
        Inl e \<Rightarrow> Inl e
      | Inr ttvl \<Rightarrow>
          (case px_bar ttvl [''Protocol'', ''TVL (USD)'', ''Category''] of
             Inl e \<Rightarrow> Inl e
           | Inr drawn \<Rightarrow>
               (case top_guarded frev ''24h Revenue (USD)'' revenue_cols of
                  Inl e \<Rightarrow> Inl e
                | Inr trev \<Rightarrow>
                    (case top_guarded ffees ''24h Fees (USD)'' fees_cols of
                       Inl e \<Rightarrow> Inl e
                     | Inr tfees \<Rightarrow> Inr (ttvl, trev, tfees)))))"

text \<open>Lines 98 to 166 on the filtered tables: the cards, the overview, the rankings.\<close>

definition derive :: "table \<Rightarrow> table \<Rightarrow> table \<Rightarrow> table \<Rightarrow> error + dashboard" where
  "derive ftvl ffees frev fmkt =
     (case kpis ftvl fmkt of
        Inl e \<Rightarrow> Inl e
      | Inr (kn, ktvl, kcap) \<Rightarrow>
          (case overview ftvl fmkt of
             Inl e \<Rightarrow> Inl e
           | Inr (ov, shown) \<Rightarrow>
               (case rankings ftvl frev ffees of
                  Inl e \<Rightarrow> Inl e
                | Inr (ttvl, trev, tfees) \<Rightarrow>
                    Inr \<lparr>filtered_tvl = ftvl, filtered_fees = ffees, filtered_revenue = frev,
                         filtered_market = fmkt, kpi_protocols = kn, kpi_tvl = ktvl,
                         kpi_market_cap = kcap, overview_df = ov, overview_shown = shown,
                         top_tvl = ttvl, top_revenue = trev, top_fees = tfees\<rparr>)))"

text \<open>Lines 90 to 96: the four filtered tables.\<close>

definition filter_tables ::
  "table \<Rightarrow> table \<Rightarrow> table \<Rightarrow> table \<Rightarrow> cell list \<Rightarrow> cell list
     \<Rightarrow> error + table \<times> table \<times> table \<times> table" where
  "filter_tables tvl revenue fees market selected_protocols selected_categories =
     (case filter_tvl tvl selected_protocols selected_categories of
        Inl e \<Rightarrow> Inl e
      | Inr ftvl \<Rightarrow>
          (case filter_by_keys fees ftvl of
             Inl e \<Rightarrow> Inl e
           | Inr ffees \<Rightarrow>
               (case filter_by_keys revenue ftvl of
                  Inl e \<Rightarrow> Inl e
                | Inr frev \<Rightarrow>
                    (case filter_by_keys market ftvl of
                       Inl e \<Rightarrow> Inl e
                     | Inr fmkt \<Rightarrow> Inr (ftvl, ffees, frev, fmkt)))))"

text \<open>
  The whole run, lines 81 to 166. The option lists of the two widgets are computed first
  (they can raise); the selections are what the widgets returned.
\<close>

definition engine ::
  "table \<Rightarrow> table \<Rightarrow> table \<Rightarrow> table \<Rightarrow> cell list \<Rightarrow> cell list \<Rightarrow> error + dashboard" where
  "engine tvl revenue fees market selected_protocols selected_categories =
     (case protocols_of tvl of
        Inl e \<Rightarrow> Inl e
      | Inr protocols \<Rightarrow>
          (case categories_of tvl of
             Inl e \<Rightarrow> Inl e
           | Inr categories \<Rightarrow>
               (case filter_tables tvl revenue fees market selected_protocols selected_categories of
                  Inl e \<Rightarrow> Inl e
                | Inr (ftvl, ffees, frev, fmkt) \<Rightarrow> derive ftvl ffees frev fmkt)))"

section \<open>Inputs and properties named in the statements\<close>

text \<open>
  A column that is present and numeric: its dtype is not \<open>object\<close>, and it holds numbers
  and missing values, no string.
\<close>

definition numeric_col :: "table \<Rightarrow> string \<Rightarrow> bool" where
  "numeric_col t c =
     (c \<in> set (columns t) \<and> c \<notin> set (object_cols t)
      \<and> \<not> list_ex is_Str (map (field t c) (rows t)))"

text \<open>
  The columns the script reads without a guard, with the types it uses them at: the key
  \<open>Protocol\<close> in all four tables, a string in every row of the TVL and of the market
  table; \<open>Category\<close>, which the chart of line 142 reads; a numeric \<open>TVL (USD)\<close>; the
  five revenue and the five fees columns, the ranking columns numeric; a
  \<open>Market Cap (USD)\<close> that is numeric when it is there; no label twice in a table, and
  no label other than the key in both the TVL and the market table. \<open>Market Cap (USD)\<close>
  and \<open>Current Price (USD)\<close> are not required.
\<close>

definition required_columns :: "table \<Rightarrow> table \<Rightarrow> table \<Rightarrow> table \<Rightarrow> bool" where
  "required_columns tvl revenue fees market =
     (''Protocol'' \<in> set (columns tvl)
      \<and> list_all is_Str (map (field tvl ''Protocol'') (rows tvl))
      \<and> ''Category'' \<in> set (columns tvl)
      \<and> numeric_col tvl ''TVL (USD)''
      \<and> list_all (\<lambda>c. c \<in> set (columns revenue)) revenue_cols
      \<and> numeric_col revenue ''24h Revenue (USD)''
      \<and> list_all (\<lambda>c. c \<in> set (columns fees)) fees_cols
      \<and> numeric_col fees ''24h Fees (USD)''
      \<and> ''Protocol'' \<in> set (columns market)
      \<and> list_all is_Str (map (field market ''Protocol'') (rows market))
      \<and> (if ''Market Cap (USD)'' \<in> set (columns market)
          then numeric_col market ''Market Cap (USD)'' else True)
      \<and> list_all (\<lambda>c. c = ''Protocol'' \<or> c \<notin> set (columns market)) (columns tvl)
      \<and> distinct (columns tvl) \<and> distinct (columns revenue)
      \<and> distinct (columns fees) \<and> distinct (columns market))"

text \<open>
  The order of a ranking column: a missing value is below every number.
\<close>

definition value_ge :: "cell \<Rightarrow> cell \<Rightarrow> bool" where
  "value_ge a b = (b = Null \<or> (is_Num a \<and> is_Num b \<and> num_of b \<le> num_of a))"

text \<open>
  What is claimed of a ranking \<open>r\<close> of table \<open>t\<close> by column \<open>c\<close>: the same columns,
  \<open>min n (number of rows)\<close> rows, descending in the column, every row a row of \<open>t\<close>, and,
  for each value, the rows of \<open>r\<close> with that value are the first rows of \<open>t\<close> with that
  value, in the order of \<open>t\<close>.
\<close>

definition ranking_of :: "nat \<Rightarrow> string \<Rightarrow> table \<Rightarrow> table \<Rightarrow> bool" where
  "ranking_of n c t r =
     (columns r = columns t
      \<and> length (rows r) = min n (length (rows t))
      \<and> sorted_wrt (\<lambda>a b. value_ge (field t c a) (field t c b)) (rows r)
      \<and> set (rows r) \<subseteq> set (rows t)
      \<and> (\<forall>v. prefix (filter (\<lambda>x. field t c x = v) (rows r))
                    (filter (\<lambda>x. field t c x = v) (rows t))))"

text \<open>
  The tables of the end-to-end scenario: two protocols with their categories and TVL, one
  revenue row, and fees and market tables without rows.
\<close>

definition scenario_tvl :: table where
  "scenario_tvl =
     \<lparr>columns = [''Protocol'', ''Category'', ''TVL (USD)''],
      object_cols = [''Protocol'', ''Category''],
      rows = [[Str ''A'', Str ''Cat1'', Num 500], [Str ''B'', Str ''Cat2'', Num 2500000000]]\<rparr>"

definition scenario_revenue :: table where
  "scenario_revenue =
     \<lparr>columns = [''Protocol'', ''24h Revenue (USD)'', ''7d Revenue (USD)'',
                 ''30d Revenue (USD)'', ''Total Revenue (USD)''],
      object_cols = [''Protocol''],
      rows = [[Str ''A'', Num 10, Num 70, Num 300, Num 1000]]\<rparr>"

definition scenario_fees :: table where
  "scenario_fees =
     \<lparr>columns = [''Protocol'', ''24h Fees (USD)'', ''7d Fees (USD)'',
                 ''30d Fees (USD)'', ''Total Fees (USD)''],
      object_cols = [''Protocol''],
      rows = []\<rparr>"

definition scenario_market :: table where
  "scenario_market =
     \<lparr>columns = [''Protocol'', ''Market Cap (USD)'', ''Current Price (USD)''],
      object_cols = [''Protocol''],
      rows = []\<rparr>"

text \<open>
  A TVL table without a \<open>Category\<close> column, and one with a missing value and equal
  values in \<open>TVL (USD)\<close>.
\<close>

definition plain_tvl :: table where
  "plain_tvl =
     \<lparr>columns = [''Protocol'', ''TVL (USD)''],
      object_cols = [''Protocol''],
      rows = [[Str ''A'', Num 500], [Str ''B'', Num 7]]\<rparr>"

definition ties_tvl :: table where
  "ties_tvl =
     \<lparr>columns = [''Protocol'', ''Category'', ''TVL (USD)''],
      object_cols = [''Protocol'', ''Category''],
      rows = [[Str ''A'', Str ''Lending'', Num 5], [Str ''B'', Str ''Lending'', Null],
              [Str ''C'', Str ''Dexs'', Num 7], [Str ''D'', Str ''Dexs'', Num 5]]\<rparr>"

text \<open>
  Two market tables: one with two rows for the same protocol, one with a single row.
\<close>

definition dup_market :: table where
  "dup_market =
     \<lparr>columns = [''Protocol'', ''Market Cap (USD)''],
      object_cols = [''Protocol''],
      rows = [[Str ''A'', Num 1], [Str ''A'', Num 2]]\<rparr>"

definition one_market :: table where
  "one_market =
     \<lparr>columns = [''Protocol'', ''Market Cap (USD)'', ''Current Price (USD)''],
      object_cols = [''Protocol''],
      rows = [[Str ''B'', Num 900, Num 3]]\<rparr>"

text \<open>A market table with the key only.\<close>

definition bare_market :: table where
  "bare_market =
     \<lparr>columns = [''Protocol''], object_cols = [''Protocol''], rows = [[Str ''A'']]\<rparr>"

section \<open>The currency formatter\<close>

lemma digit_in_digits: "d < 10 \<Longrightarrow> digit d \<in> set ''0123456789''"
  unfolding digit_def by (rule nth_mem) simp

lemma last_fmt2f_Fin: "last (fmt2f (Fin x)) \<in> set ''0123456789''"
proof -
  have "last (fmt2f (Fin x)) = digit (round_half_even (\<bar>x\<bar> * 100) mod 10)"
    by (simp add: Let_def)
  moreover have "round_half_even (\<bar>x\<bar> * 100) mod 10 < 10" by simp
  ultimately show ?thesis using digit_in_digits by metis
qed

text \<open>
  C3. The formatter at the boundaries of its ranges: 0 gives \<open>$0\<close>, 999 gives \<open>$999.00\<close>,
  1000 gives \<open>$1.00K\<close>, 1000000 gives \<open>$1.00M\<close>, 1000000000 gives \<open>$1.00B\<close>, and
  both \<open>None\<close> and \<open>NaN\<close> give \<open>$0\<close>.
\<close>

theorem format_currency_boundaries:
  "format_currency (Some (Fin 0)) = ''$0''
   \<and> format_currency (Some (Fin 999)) = ''$999.00''
   \<and> format_currency (Some (Fin 1000)) = ''$1.00K''
   \<and> format_currency (Some (Fin 1000000)) = ''$1.00M''
   \<and> format_currency (Some (Fin 1000000000)) = ''$1.00B''
   \<and> format_currency None = ''$0''
   \<and> format_currency (Some NaN) = ''$0''"
  by (simp add: format_currency_def round_half_even_def digits.simps digit_def)

text \<open>
  C9. A negative amount is formatted in the plain two-decimal form, whatever its magnitude:
  the result is \<open>$\<close> followed by the \<open>:.2f\<close> rendering of the amount itself, and it ends
  with a digit, not with one of the suffixes B, M and K. The same holds for \<open>-inf\<close>.
\<close>

theorem format_currency_negative:
  assumes "x < 0"
  shows "format_currency (Some (Fin x)) = ''$'' @ fmt2f (Fin x)
         \<and> last (format_currency (Some (Fin x))) \<in> set ''0123456789''
         \<and> format_currency (Some NegInf) = ''$'' @ fmt2f NegInf"
proof -
  have not_ge: "\<not> num_ge (Fin x) c" if "0 < c" for c
    using assms that by simp
  have plain: "format_currency (Some (Fin x)) = ''$'' @ fmt2f (Fin x)"
    using assms by (simp add: format_currency_def not_ge del: fmt2f.simps)
  have nonempty: "fmt2f (Fin x) \<noteq> []" by (simp add: Let_def)
  have "last (''$'' @ fmt2f (Fin x)) = last (fmt2f (Fin x))"
    using nonempty by simp
  then have "last (format_currency (Some (Fin x))) \<in> set ''0123456789''"
    using plain last_fmt2f_Fin by metis
  moreover have "format_currency (Some NegInf) = ''$'' @ fmt2f NegInf"
    by (simp add: format_currency_def)
  ultimately show ?thesis using plain by blast
qed

theorem format_currency_negative_witness:
  "(- 2000000000 :: rat) < 0
   \<and> format_currency (Some (Fin (- 2000000000))) = ''$-2000000000.00''"
proof -
  have h: "(- 2000000000 :: rat) < 0" by simp
  have "format_currency (Some (Fin (- 2000000000))) = ''$'' @ fmt2f (Fin (- 2000000000))"
    using format_currency_negative [OF h] by (rule conjunct1)
  then show ?thesis
    using h by (simp add: round_half_even_def digits.simps digit_def)
qed

section \<open>Filtering\<close>

lemmas scenario_defs = scenario_tvl_def scenario_revenue_def scenario_fees_def scenario_market_def

lemmas frame_defs = getcol_def field_def cell_at_def isin_def mask_rows_def

lemma filter_zip_map: "map fst (filter snd (zip xs (map P xs))) = filter P xs"
  by (induction xs) auto

lemma field_rows_update [simp]: "field (t\<lparr>rows := rs\<rparr>) c = field t c"
  by (rule ext) (simp add: field_def)

lemma mask_rows_isin:
  "mask_rows t (isin (map (field t c) (rows t)) xs)
   = t\<lparr>rows := filter (\<lambda>r. field t c r \<in> set xs) (rows t)\<rparr>"
proof -
  have "isin (map (field t c) (rows t)) xs = map (\<lambda>r. field t c r \<in> set xs) (rows t)"
    by (simp add: isin_def)
  then show ?thesis
    by (simp add: mask_rows_def filter_zip_map)
qed

lemma protocol_filter_rows:
  assumes "''Protocol'' \<in> set (columns tvl)"
  shows "protocol_filter tvl S
         = Inr (tvl\<lparr>rows := filter (\<lambda>r. field tvl ''Protocol'' r \<in> set S) (rows tvl)\<rparr>)"
  using assms by (simp add: protocol_filter_def getcol_def mask_rows_isin)

lemma protocol_filter_missing:
  assumes "''Protocol'' \<notin> set (columns tvl)"
  shows "protocol_filter tvl S = Inl (KeyError [''Protocol''])"
  using assms by (simp add: protocol_filter_def getcol_def)

lemma protocol_filter_columns:
  "protocol_filter tvl S = Inr ft \<Longrightarrow> columns ft = columns tvl"
  by (auto simp: protocol_filter_def getcol_def mask_rows_def split: if_splits)

text \<open>
  C1. For a TVL table with a \<open>Protocol\<close> column and any selection \<open>S\<close>, line 90 returns a
  table whose \<open>Protocol\<close> values are those of the original that are in \<open>S\<close> (as a set:
  the intersection; as a list: the original values filtered by membership), with the columns
  of the original and with rows that are rows of the original in their original order.
\<close>

theorem protocol_filter_correct:
  assumes "''Protocol'' \<in> set (columns tvl)"
  shows "\<exists>ft ps fps.
           protocol_filter tvl S = Inr ft
           \<and> getcol tvl ''Protocol'' = Inr ps
           \<and> getcol ft ''Protocol'' = Inr fps
           \<and> set fps = set ps \<inter> set S
           \<and> fps = filter (\<lambda>v. v \<in> set S) ps
           \<and> columns ft = columns tvl
           \<and> subseq (rows ft) (rows tvl)"
proof -
  let ?ft = "tvl\<lparr>rows := filter (\<lambda>r. field tvl ''Protocol'' r \<in> set S) (rows tvl)\<rparr>"
  let ?ps = "map (field tvl ''Protocol'') (rows tvl)"
  let ?fps = "map (field tvl ''Protocol'') (rows ?ft)"
  have a: "protocol_filter tvl S = Inr ?ft"
    by (rule protocol_filter_rows [OF assms])
  have b: "getcol tvl ''Protocol'' = Inr ?ps"
    using assms by (simp add: getcol_def)
  have c: "getcol ?ft ''Protocol'' = Inr ?fps"
    using assms by (simp add: getcol_def)
  have d: "?fps = filter (\<lambda>v. v \<in> set S) ?ps"
    by (simp add: filter_map comp_def)
  have e: "set ?fps = set ?ps \<inter> set S"
    unfolding d by auto
  have f: "columns ?ft = columns tvl" by simp
  have g: "subseq (rows ?ft) (rows tvl)" by simp
  from a b c d e f g show ?thesis by blast
qed

theorem protocol_filter_correct_witness:
  "''Protocol'' \<in> set (columns scenario_tvl)
   \<and> (\<exists>ft ps fps.
         protocol_filter scenario_tvl [Str ''B'', Str ''C''] = Inr ft
         \<and> getcol scenario_tvl ''Protocol'' = Inr ps
         \<and> getcol ft ''Protocol'' = Inr fps
         \<and> set fps = set ps \<inter> set [Str ''B'', Str ''C'']
         \<and> fps = filter (\<lambda>v. v \<in> set [Str ''B'', Str ''C'']) ps
         \<and> columns ft = columns scenario_tvl
         \<and> subseq (rows ft) (rows scenario_tvl))"
proof -
  have h: "''Protocol'' \<in> set (columns scenario_tvl)"
    by (simp add: scenario_tvl_def)
  show ?thesis
    using h protocol_filter_correct [OF h, of "[Str ''B'', Str ''C'']"] by (rule conjI)
qed

lemma categories_of_no_column:
  assumes "''Category'' \<notin> set (columns tvl)"
  shows "categories_of tvl = Inr []"
  using assms by (simp add: categories_of_def)

lemma multiselect_nil: "multiselect_ok [] sel \<Longrightarrow> sel = []"
  by (cases sel) (simp_all add: multiselect_ok_def)

lemma categories_need_column:
  assumes "categories_of tvl = Inr categories" and "categories \<noteq> []"
  shows "''Category'' \<in> set (columns tvl)"
  using assms by (auto simp: categories_of_def split: if_splits)

text \<open>
  Lines 84 to 92 on a TVL table without a \<open>Category\<close> column: the category widget has no
  option, so what it returns is empty; lines 91 and 92 are then skipped and the filtered TVL
  table is the result of line 90 alone.
\<close>

lemma category_filter_skipped:
  assumes "''Category'' \<notin> set (columns tvl)"
    and "categories_of tvl = Inr categories"
    and "multiselect_ok categories selected_categories"
  shows "selected_categories = []
         \<and> filter_tvl tvl selected_protocols selected_categories
             = protocol_filter tvl selected_protocols"
proof -
  have "categories = []"
    using assms(1,2) by (simp add: categories_of_no_column)
  then have nil: "selected_categories = []"
    using assms(3) by (simp add: multiselect_nil)
  have "filter_tvl tvl selected_protocols selected_categories
        = protocol_filter tvl selected_protocols"
    unfolding nil by (simp add: filter_tvl_def category_filter_def split: sum.splits)
  with nil show ?thesis by simp
qed

text \<open>
  C10. What the category widget returns is among the categories computed from the TVL table,
  and these are empty without a \<open>Category\<close> column. So whenever the selection is not
  empty the table filtered by line 90 has a \<open>Category\<close> column, and lines 91 and 92
  return a table: they never raise. With an empty selection they leave the table as it is.
\<close>

theorem category_filter_safe:
  assumes "categories_of tvl = Inr categories"
    and "multiselect_ok categories selected_categories"
    and "protocol_filter tvl selected_protocols = Inr ft"
  shows "(selected_categories \<noteq> [] \<longrightarrow> ''Category'' \<in> set (columns ft))
         \<and> (\<exists>ft'. category_filter ft selected_categories = Inr ft')
         \<and> (selected_categories = [] \<longrightarrow> category_filter ft selected_categories = Inr ft)"
proof -
  have cols: "columns ft = columns tvl"
    using assms(3) by (rule protocol_filter_columns)
  have present: "''Category'' \<in> set (columns ft)" if "selected_categories \<noteq> []"
  proof -
    from that assms(2) have "categories \<noteq> []"
      by (cases selected_categories) (auto simp: multiselect_ok_def)
    with assms(1) show ?thesis
      unfolding cols by (rule categories_need_column)
  qed
  then have "\<exists>ft'. category_filter ft selected_categories = Inr ft'"
    by (cases "selected_categories = []") (simp_all add: category_filter_def getcol_def)
  moreover have "selected_categories = [] \<longrightarrow> category_filter ft selected_categories = Inr ft"
    by (simp add: category_filter_def)
  ultimately show ?thesis using present by blast
qed

lemma scenario_categories: "categories_of scenario_tvl = Inr [Str ''Cat1'', Str ''Cat2'']"
  by (simp add: scenario_defs categories_of_def frame_defs sorted_py_def unique_def dropna_def)

theorem category_filter_safe_witness:
  "categories_of scenario_tvl = Inr [Str ''Cat1'', Str ''Cat2'']
   \<and> multiselect_ok [Str ''Cat1'', Str ''Cat2''] [Str ''Cat2'']
   \<and> protocol_filter scenario_tvl [Str ''A'', Str ''B''] = Inr scenario_tvl
   \<and> ''Category'' \<in> set (columns scenario_tvl)
   \<and> (\<exists>ft'. category_filter scenario_tvl [Str ''Cat2''] = Inr ft')"
proof -
  have h1: "categories_of scenario_tvl = Inr [Str ''Cat1'', Str ''Cat2'']"
    by (rule scenario_categories)
  have h2: "multiselect_ok [Str ''Cat1'', Str ''Cat2''] [Str ''Cat2'']"
    by (simp add: multiselect_ok_def)
  have h3: "protocol_filter scenario_tvl [Str ''A'', Str ''B''] = Inr scenario_tvl"
    by (simp add: scenario_defs protocol_filter_def frame_defs)
  from category_filter_safe [OF h1 h2 h3] h1 h2 h3 show ?thesis by simp
qed

section \<open>The pipeline as a whole\<close>

lemma floor_numeral_quotient: "\<lfloor>(numeral a :: rat) / numeral b\<rfloor> = numeral a div numeral b"
  using floor_divide_of_int_eq [of "numeral a" "numeral b", where ?'a = rat] by simp

lemma engine_InrD:
  assumes "engine tvl revenue fees market sp sc = Inr d"
  shows "filter_tables tvl revenue fees market sp sc
           = Inr (filtered_tvl d, filtered_fees d, filtered_revenue d, filtered_market d)"
    and "kpis (filtered_tvl d) (filtered_market d)
           = Inr (kpi_protocols d, kpi_tvl d, kpi_market_cap d)"
    and "overview (filtered_tvl d) (filtered_market d) = Inr (overview_df d, overview_shown d)"
    and "rankings (filtered_tvl d) (filtered_revenue d) (filtered_fees d)
           = Inr (top_tvl d, top_revenue d, top_fees d)"
  using assms by (auto simp: engine_def derive_def split: sum.splits prod.splits)

lemma filter_by_keys_InrD:
  assumes "filter_by_keys t ft = Inr f"
  shows "''Protocol'' \<in> set (columns t)" and "columns f = columns t"
    and "rows f = filter (\<lambda>r. field t ''Protocol'' r \<in> set (map (field ft ''Protocol'') (rows ft))) (rows t)"
  using assms
  by (auto simp: filter_by_keys_def getcol_def mask_rows_isin simp del: set_map split: if_splits)

lemma filter_tables_InrD:
  assumes "filter_tables tvl revenue fees market sp sc = Inr (ftvl, ffees, frev, fmkt)"
  shows "filter_tvl tvl sp sc = Inr ftvl" and "filter_by_keys fees ftvl = Inr ffees"
    and "filter_by_keys revenue ftvl = Inr frev" and "filter_by_keys market ftvl = Inr fmkt"
  using assms by (auto simp: filter_tables_def split: sum.splits)

lemma top_guarded_InrD:
  assumes "top_guarded f c cs = Inr r"
  shows "case r of None \<Rightarrow> empty_df f | Some rk \<Rightarrow> nlargest 10 c f = Inr rk"
  using assms by (auto simp: top_guarded_def split: if_splits sum.splits)

lemma rankings_InrD:
  assumes "rankings ftvl frev ffees = Inr (ttvl, trev, tfees)"
  shows "nlargest 10 ''TVL (USD)'' ftvl = Inr ttvl"
    and "top_guarded frev ''24h Revenue (USD)'' revenue_cols = Inr trev"
    and "top_guarded ffees ''24h Fees (USD)'' fees_cols = Inr tfees"
  using assms by (auto simp: rankings_def split: sum.splits)

lemma nlargest_rows:
  assumes "nlargest n c t = Inr r"
  shows "c \<in> set (columns t)"
    and "\<not> list_ex is_Str (map (field t c) (rows t))"
    and "r = t\<lparr>rows := take n (sort_key (\<lambda>x. - num_of (field t c x))
                                  (filter (\<lambda>x. field t c x \<noteq> Null) (rows t))
                                @ filter (\<lambda>x. field t c x = Null) (rows t))\<rparr>"
  using assms by (auto simp: nlargest_def getcol_def Let_def split: if_splits)

lemma filter_take_prefix: "prefix (filter P (take n xs)) (filter P xs)"
  by (rule filter_mono_prefix) (rule take_is_prefix)

text \<open>A stable sort by a key that is a function of a value keeps the rows of each value in order.\<close>

lemma filter_value_sorted:
  "filter (\<lambda>x. g x = v) (sort_key (\<lambda>x. h (g x)) xs) = filter (\<lambda>x. g x = v) xs"
proof -
  have "filter (\<lambda>x. g x = v) (sort_key (\<lambda>x. h (g x)) xs)
        = filter (\<lambda>x. g x = v) (filter (\<lambda>x. h (g x) = h v) (sort_key (\<lambda>x. h (g x)) xs))"
    by (simp add: conj_commute cong: conj_cong rev_conj_cong)
  also have "\<dots> = filter (\<lambda>x. g x = v) (filter (\<lambda>x. h (g x) = h v) xs)"
    by (simp only: sort_key_stable)
  also have "\<dots> = filter (\<lambda>x. g x = v) xs"
    by (simp add: conj_commute cong: conj_cong rev_conj_cong)
  finally show ?thesis .
qed

lemma nlargest_ranking:
  assumes "nlargest n c t = Inr r"
  shows "ranking_of n c t r"
proof -
  let ?g = "field t c"
  let ?D = "filter (\<lambda>x. ?g x \<noteq> Null) (rows t)"
  let ?N = "filter (\<lambda>x. ?g x = Null) (rows t)"
  let ?S = "sort_key (\<lambda>x. - num_of (?g x)) ?D"
  have r: "rows r = take n (?S @ ?N)" and cols: "columns r = columns t"
    using nlargest_rows(3) [OF assms] by simp_all
  have nostr: "\<not> is_Str (?g x)" if "x \<in> set (rows t)" for x
    using nlargest_rows(2) [OF assms] that by (auto simp: list_ex_iff)
  have len: "length (?S @ ?N) = length (rows t)"
    using sum_length_filter_compl [of "\<lambda>x. ?g x \<noteq> Null" "rows t"] by simp
  have num: "is_Num (?g x)" if "x \<in> set ?S" for x
  proof -
    from that have "x \<in> set (rows t)" and "?g x \<noteq> Null" by simp_all
    with nostr [of x] show ?thesis by (cases "?g x") simp_all
  qed
  have "sorted (map (\<lambda>x. - num_of (?g x)) ?S)"
    by (rule sorted_sort_key)
  then have "sorted_wrt (\<lambda>a b. - num_of (?g a) \<le> - num_of (?g b)) ?S"
    by (simp add: sorted_map)
  then have sS: "sorted_wrt (\<lambda>a b. value_ge (?g a) (?g b)) ?S"
  proof (rule sorted_wrt_mono_rel [rotated])
    fix a b
    assume "a \<in> set ?S" and "b \<in> set ?S" and "- num_of (?g a) \<le> - num_of (?g b)"
    then show "value_ge (?g a) (?g b)"
      using num [of a] num [of b] by (simp add: value_ge_def)
  qed
  have sN: "sorted_wrt (\<lambda>a b. value_ge (?g a) (?g b)) ?N"
    by (simp add: sorted_wrt_iff_nth_less value_ge_def)
      (metis (mono_tags, lifting) mem_Collect_eq nth_mem set_filter)
  have "sorted_wrt (\<lambda>a b. value_ge (?g a) (?g b)) (?S @ ?N)"
    using sS sN by (auto simp: sorted_wrt_append value_ge_def)
  then have sorted: "sorted_wrt (\<lambda>a b. value_ge (?g a) (?g b)) (rows r)"
    unfolding r by (rule sorted_wrt_take)
  have sub: "set (rows r) \<subseteq> set (rows t)"
  proof -
    have "set (rows r) \<subseteq> set (?S @ ?N)" unfolding r by (rule set_take_subset)
    also have "\<dots> \<subseteq> set (rows t)" by auto
    finally show ?thesis .
  qed
  have stable: "filter (\<lambda>x. ?g x = v) (?S @ ?N) = filter (\<lambda>x. ?g x = v) (rows t)" for v
  proof (cases "v = Null")
    case True
    have "filter (\<lambda>x. ?g x = Null) ?S = []"
      by (auto simp: filter_empty_conv)
    moreover have "filter (\<lambda>x. ?g x = Null) ?N = ?N"
      by simp
    ultimately show ?thesis using True by simp
  next
    case False
    have "filter (\<lambda>x. ?g x = v) ?N = []"
      using False by (auto simp: filter_empty_conv)
    moreover have "filter (\<lambda>x. ?g x = v) ?S = filter (\<lambda>x. ?g x = v) ?D"
      using filter_value_sorted [of ?g v "\<lambda>w. - num_of w" ?D] by simp
    moreover have "filter (\<lambda>x. ?g x = v) ?D = filter (\<lambda>x. ?g x = v) (rows t)"
      using False by (auto intro: filter_cong)
    ultimately show ?thesis by simp
  qed
  have pre: "prefix (filter (\<lambda>x. ?g x = v) (rows r)) (filter (\<lambda>x. ?g x = v) (rows t))" for v
    unfolding r using filter_take_prefix [of "\<lambda>x. ?g x = v" n "?S @ ?N"] by (simp only: stable)
  show ?thesis
    unfolding ranking_of_def using cols r len sorted sub pre by simp
qed

lemma guarded_ranking:
  assumes "top_guarded f c cs = Inr r" and "''Protocol'' \<in> set (columns f)"
  shows "case r of None \<Rightarrow> rows f = [] | Some rk \<Rightarrow> ranking_of 10 c f rk"
proof (cases r)
  case None
  with top_guarded_InrD [OF assms(1)] have "empty_df f" by simp
  with assms(2) have "rows f = []" by (auto simp: empty_df_def)
  with None show ?thesis by simp
next
  case (Some rk)
  with top_guarded_InrD [OF assms(1)] have "nlargest 10 c f = Inr rk" by simp
  then have "ranking_of 10 c f rk" by (rule nlargest_ranking)
  with Some show ?thesis by simp
qed

text \<open>
  C2. In every run that returns, each of the three rankings is a ranking of its filtered table
  by its column: it has \<open>min 10 (number of rows)\<close> rows, is descending in the column with
  the missing values last, consists of rows of the filtered table, and among rows of equal
  value takes the first ones in their original order. The revenue and fees rankings are not
  computed when their filtered table has no row.
\<close>

theorem top_n_bound:
  assumes "engine tvl revenue fees market selected_protocols selected_categories = Inr d"
  shows "ranking_of 10 ''TVL (USD)'' (filtered_tvl d) (top_tvl d)
         \<and> (case top_revenue d of
               None \<Rightarrow> rows (filtered_revenue d) = []
             | Some r \<Rightarrow> ranking_of 10 ''24h Revenue (USD)'' (filtered_revenue d) r)
         \<and> (case top_fees d of
               None \<Rightarrow> rows (filtered_fees d) = []
             | Some r \<Rightarrow> ranking_of 10 ''24h Fees (USD)'' (filtered_fees d) r)"
proof -
  note ft = filter_tables_InrD [OF engine_InrD(1) [OF assms]]
  note rk = rankings_InrD [OF engine_InrD(4) [OF assms]]
  have prev: "''Protocol'' \<in> set (columns (filtered_revenue d))"
    using filter_by_keys_InrD(1,2) [OF ft(3)] by simp
  have pfees: "''Protocol'' \<in> set (columns (filtered_fees d))"
    using filter_by_keys_InrD(1,2) [OF ft(2)] by simp
  show ?thesis
    using nlargest_ranking [OF rk(1)] guarded_ranking [OF rk(2) prev] guarded_ranking [OF rk(3) pfees]
    by simp
qed

lemma ties_run:
  "\<exists>d. engine ties_tvl scenario_revenue scenario_fees scenario_market
          [Str ''A'', Str ''B'', Str ''C'', Str ''D''] [] = Inr d
       \<and> filtered_tvl d = ties_tvl
       \<and> rows (top_tvl d) = [[Str ''C'', Str ''Dexs'', Num 7], [Str ''A'', Str ''Lending'', Num 5],
                             [Str ''D'', Str ''Dexs'', Num 5], [Str ''B'', Str ''Lending'', Null]]"
  by (simp add: engine_def protocols_of_def categories_of_def sorted_py_def unique_def dropna_def
      filter_tables_def filter_tvl_def protocol_filter_def category_filter_def filter_by_keys_def
      derive_def kpis_def total_market_cap_def col_sum_def overview_def overview_cols_def
      merge_left_def join_row_def right_part_def select_cols_def rankings_def top_guarded_def
      nlargest_def px_bar_def empty_df_def revenue_cols_def fees_cols_def frame_defs scenario_defs ties_tvl_def)

theorem top_n_bound_witness:
  "\<exists>d. engine ties_tvl scenario_revenue scenario_fees scenario_market
          [Str ''A'', Str ''B'', Str ''C'', Str ''D''] [] = Inr d
       \<and> ranking_of 10 ''TVL (USD)'' ties_tvl (top_tvl d)
       \<and> rows (top_tvl d) = [[Str ''C'', Str ''Dexs'', Num 7], [Str ''A'', Str ''Lending'', Num 5],
                             [Str ''D'', Str ''Dexs'', Num 5], [Str ''B'', Str ''Lending'', Null]]"
proof -
  obtain d where run: "engine ties_tvl scenario_revenue scenario_fees scenario_market
          [Str ''A'', Str ''B'', Str ''C'', Str ''D''] [] = Inr d"
    and ft: "filtered_tvl d = ties_tvl"
    and top: "rows (top_tvl d) = [[Str ''C'', Str ''Dexs'', Num 7], [Str ''A'', Str ''Lending'', Num 5],
                             [Str ''D'', Str ''Dexs'', Num 5], [Str ''B'', Str ''Lending'', Null]]"
    using ties_run by blast
  have "ranking_of 10 ''TVL (USD)'' ties_tvl (top_tvl d)"
    using top_n_bound [OF run] unfolding ft by (rule conjunct1)
  with run top show ?thesis by blast
qed

lemma scenario_filter:
  "filter_tables scenario_tvl scenario_revenue scenario_fees scenario_market
     [Str ''A'', Str ''B''] [Str ''Cat1'', Str ''Cat2'']
   = Inr (scenario_tvl, scenario_fees, scenario_revenue, scenario_market)"
  by (simp add: scenario_defs filter_tables_def filter_tvl_def protocol_filter_def
      category_filter_def filter_by_keys_def frame_defs)

lemma scenario_protocols: "protocols_of scenario_tvl = Inr [Str ''A'', Str ''B'']"
  by (simp add: scenario_defs protocols_of_def frame_defs sorted_py_def unique_def)

lemma scenario_kpis:
  "kpis scenario_tvl scenario_market = Inr (''2'', ''$2.50B'', ''$0'')"
  by (simp add: scenario_defs kpis_def total_market_cap_def frame_defs col_sum_def
      format_currency_def round_half_even_def digits.simps digit_def floor_numeral_quotient)

lemma scenario_rankings:
  "rankings scenario_tvl scenario_revenue scenario_fees
   = Inr (\<lparr>columns = [''Protocol'', ''Category'', ''TVL (USD)''],
           object_cols = [''Protocol'', ''Category''],
           rows = [[Str ''B'', Str ''Cat2'', Num 2500000000], [Str ''A'', Str ''Cat1'', Num 500]]\<rparr>,
          Some scenario_revenue, None)"
  by (simp add: scenario_defs rankings_def top_guarded_def nlargest_def px_bar_def select_cols_def
      empty_df_def revenue_cols_def fees_cols_def frame_defs)

lemma scenario_overview:
  "overview scenario_tvl scenario_market
   = Inr (\<lparr>columns = [''Protocol'', ''Category'', ''TVL (USD)'', ''Market Cap (USD)'', ''Current Price (USD)''],
           object_cols = [''Protocol'', ''Category''],
           rows = [[Str ''A'', Str ''Cat1'', Num 500, Null, Null],
                   [Str ''B'', Str ''Cat2'', Num 2500000000, Null, Null]]\<rparr>,
          \<lparr>columns = [''Protocol'', ''Category'', ''TVL (USD)'', ''Market Cap (USD)'', ''Current Price (USD)''],
           object_cols = [''Protocol'', ''Category''],
           rows = [[Str ''A'', Str ''Cat1'', Num 500, Null, Null],
                   [Str ''B'', Str ''Cat2'', Num 2500000000, Null, Null]]\<rparr>)"
  by (simp add: scenario_defs overview_def overview_cols_def merge_left_def join_row_def
      right_part_def select_cols_def frame_defs)

text \<open>
  C8. The end-to-end scenario: with both protocols and both categories selected the run
  returns; the protocol count is 2, the total TVL is shown as \<open>$2.50B\<close>, the TVL ranking is
  B before A, and the revenue ranking is the single row of A.
\<close>

theorem end_to_end_scenario:
  "\<exists>d. engine scenario_tvl scenario_revenue scenario_fees scenario_market
          [Str ''A'', Str ''B''] [Str ''Cat1'', Str ''Cat2''] = Inr d
       \<and> kpi_protocols d = ''2''
       \<and> kpi_tvl d = ''$2.50B''
       \<and> rows (top_tvl d) = [[Str ''B'', Str ''Cat2'', Num 2500000000],
                             [Str ''A'', Str ''Cat1'', Num 500]]
       \<and> map_option rows (top_revenue d) = Some [[Str ''A'', Num 10, Num 70, Num 300, Num 1000]]"
  by (simp add: engine_def derive_def scenario_protocols scenario_categories scenario_filter
      scenario_kpis scenario_overview scenario_rankings)
    (simp add: scenario_revenue_def)

section \<open>The overview join\<close>

lemma distinct_key_matches:
  "distinct (map f xs) \<Longrightarrow> length (filter (\<lambda>x. f x = v) xs) \<le> 1"
proof (induction xs)
  case Nil
  then show ?case by simp
next
  case (Cons x xs)
  show ?case
  proof (cases "f x = v")
    case True
    from Cons.prems have "f x \<notin> f ` set xs" by simp
    with True have "\<forall>y\<in>set xs. f y \<noteq> v" by blast
    then have "filter (\<lambda>y. f y = v) xs = []"
      by (simp add: filter_empty_conv)
    with True show ?thesis by simp
  next
    case False
    with Cons show ?thesis by simp
  qed
qed

lemma join_row_single:
  assumes "distinct (map (field r k) (rows r))"
  shows "\<exists>rest. join_row l r k lr = [lr @ rest]
           \<and> (field l k lr \<notin> set (map (field r k) (rows r))
                \<longrightarrow> rest = replicate (length (filter (\<lambda>c. c \<noteq> k) (columns r))) Null)"
proof (cases "filter (\<lambda>rr. field r k rr = field l k lr) (rows r)")
  case Nil
  then show ?thesis by (simp add: join_row_def)
next
  case (Cons m ms)
  have "length (filter (\<lambda>rr. field r k rr = field l k lr) (rows r)) \<le> 1"
    using assms by (rule distinct_key_matches)
  with Cons have ms: "ms = []" by simp
  have "m \<in> set (filter (\<lambda>rr. field r k rr = field l k lr) (rows r))"
    using Cons by simp
  then have "field l k lr \<in> set (map (field r k) (rows r))" by force
  with Cons ms show ?thesis by (simp add: join_row_def)
qed

lemma concat_join_rows:
  assumes "distinct (map (field r k) (rows r))"
  shows "list_all2
           (\<lambda>lr out. take (length lr) out = lr
              \<and> (field l k lr \<notin> set (map (field r k) (rows r))
                   \<longrightarrow> drop (length lr) out
                        = replicate (length (filter (\<lambda>c. c \<noteq> k) (columns r))) Null))
           ls (concat (map (join_row l r k) ls))"
proof (induction ls)
  case Nil
  then show ?case by simp
next
  case (Cons lr ls)
  from join_row_single [OF assms, of l lr] obtain rest
    where j: "join_row l r k lr = [lr @ rest]"
      and u: "field l k lr \<notin> set (map (field r k) (rows r))
                \<longrightarrow> rest = replicate (length (filter (\<lambda>c. c \<noteq> k) (columns r))) Null"
    by blast
  show ?case using Cons.IH u by (simp add: j)
qed

lemma overview_InrD:
  assumes "overview ftvl fmkt = Inr (ov, shown)"
  shows "merge_left ftvl fmkt ''Protocol'' = Inr ov"
  using assms by (auto simp: overview_def split: sum.splits)

lemma merge_left_rows:
  assumes "merge_left l r k = Inr ov"
  shows "rows ov = concat (map (join_row l r k) (rows l))"
  using assms by (auto simp: merge_left_def split: if_splits)

text \<open>
  C4, as the code has it. In a run that returns, when no two rows of the filtered market table
  have the same \<open>Protocol\<close>, the rows of the overview correspond one to one, in order, to
  the rows of the filtered TVL table: each overview row starts with its TVL row, and when no
  market row has that protocol the remaining cells are all missing values.
\<close>

theorem overview_join_complete:
  assumes "engine tvl revenue fees market selected_protocols selected_categories = Inr d"
    and "distinct (map (field (filtered_market d) ''Protocol'') (rows (filtered_market d)))"
  shows "list_all2
           (\<lambda>lr out. take (length lr) out = lr
              \<and> (field (filtered_tvl d) ''Protocol'' lr
                    \<notin> set (map (field (filtered_market d) ''Protocol'') (rows (filtered_market d)))
                   \<longrightarrow> drop (length lr) out
                        = replicate (length (filter (\<lambda>c. c \<noteq> ''Protocol'')
                                               (columns (filtered_market d)))) Null))
           (rows (filtered_tvl d)) (rows (overview_df d))"
proof -
  have "merge_left (filtered_tvl d) (filtered_market d) ''Protocol'' = Inr (overview_df d)"
    using engine_InrD(3) [OF assms(1)] by (rule overview_InrD)
  then have "rows (overview_df d)
             = concat (map (join_row (filtered_tvl d) (filtered_market d) ''Protocol'')
                         (rows (filtered_tvl d)))"
    by (rule merge_left_rows)
  then show ?thesis
    using concat_join_rows [OF assms(2), of "filtered_tvl d" "rows (filtered_tvl d)"] by simp
qed


lemmas pipeline_defs = engine_def protocols_of_def categories_of_def sorted_py_def unique_def
  dropna_def filter_tables_def filter_tvl_def protocol_filter_def category_filter_def
  filter_by_keys_def derive_def kpis_def total_market_cap_def col_sum_def overview_def
  overview_cols_def merge_left_def join_row_def right_part_def select_cols_def rankings_def
  top_guarded_def nlargest_def px_bar_def empty_df_def revenue_cols_def fees_cols_def frame_defs
  format_currency_def round_half_even_def digits.simps digit_def floor_numeral_quotient

lemma one_market_run:
  "\<exists>d. engine scenario_tvl scenario_revenue scenario_fees one_market [Str ''A'', Str ''B''] [] = Inr d
       \<and> filtered_tvl d = scenario_tvl \<and> filtered_market d = one_market
       \<and> rows (overview_df d) = [[Str ''A'', Str ''Cat1'', Num 500, Null, Null],
                                  [Str ''B'', Str ''Cat2'', Num 2500000000, Num 900, Num 3]]"
  by (simp add: pipeline_defs scenario_defs one_market_def)

theorem overview_join_complete_witness:
  "\<exists>d. engine scenario_tvl scenario_revenue scenario_fees one_market [Str ''A'', Str ''B''] [] = Inr d
       \<and> distinct (map (field one_market ''Protocol'') (rows one_market))
       \<and> rows (overview_df d) = [[Str ''A'', Str ''Cat1'', Num 500, Null, Null],
                                  [Str ''B'', Str ''Cat2'', Num 2500000000, Num 900, Num 3]]
       \<and> list_all2
           (\<lambda>lr out. take (length lr) out = lr
              \<and> (field scenario_tvl ''Protocol'' lr
                    \<notin> set (map (field one_market ''Protocol'') (rows one_market))
                   \<longrightarrow> drop (length lr) out
                        = replicate (length (filter (\<lambda>c. c \<noteq> ''Protocol'') (columns one_market))) Null))
           (rows scenario_tvl) (rows (overview_df d))"
proof -
  obtain d where run: "engine scenario_tvl scenario_revenue scenario_fees one_market
                         [Str ''A'', Str ''B''] [] = Inr d"
    and ft: "filtered_tvl d = scenario_tvl" and fm: "filtered_market d = one_market"
    and ov: "rows (overview_df d) = [[Str ''A'', Str ''Cat1'', Num 500, Null, Null],
                                  [Str ''B'', Str ''Cat2'', Num 2500000000, Num 900, Num 3]]"
    using one_market_run by blast
  have dist: "distinct (map (field one_market ''Protocol'') (rows one_market))"
    by (simp add: one_market_def field_def cell_at_def)
  have dist': "distinct (map (field (filtered_market d) ''Protocol'') (rows (filtered_market d)))"
    unfolding fm by (rule dist)
  have "list_all2
           (\<lambda>lr out. take (length lr) out = lr
              \<and> (field scenario_tvl ''Protocol'' lr
                    \<notin> set (map (field one_market ''Protocol'') (rows one_market))
                   \<longrightarrow> drop (length lr) out
                        = replicate (length (filter (\<lambda>c. c \<noteq> ''Protocol'') (columns one_market))) Null))
           (rows scenario_tvl) (rows (overview_df d))"
    using overview_join_complete [OF run dist'] unfolding ft fm .
  with run dist ov show ?thesis by blast
qed

text \<open>
  C4 as stated fails when the market table has two rows for one protocol: the single filtered
  TVL row of protocol A then appears twice in the overview.
\<close>

theorem overview_join_duplicates:
  "map_sum id filtered_tvl
     (engine scenario_tvl scenario_revenue scenario_fees dup_market [Str ''A''] [])
   = Inr \<lparr>columns = [''Protocol'', ''Category'', ''TVL (USD)''],
          object_cols = [''Protocol'', ''Category''],
          rows = [[Str ''A'', Str ''Cat1'', Num 500]]\<rparr>
   \<and> map_sum id filtered_market
       (engine scenario_tvl scenario_revenue scenario_fees dup_market [Str ''A''] [])
     = Inr dup_market
   \<and> map_sum id overview_df
       (engine scenario_tvl scenario_revenue scenario_fees dup_market [Str ''A''] [])
     = Inr \<lparr>columns = [''Protocol'', ''Category'', ''TVL (USD)'', ''Market Cap (USD)''],
            object_cols = [''Protocol'', ''Category''],
            rows = [[Str ''A'', Str ''Cat1'', Num 500, Num 1],
                    [Str ''A'', Str ''Cat1'', Num 500, Num 2]]\<rparr>"
  by (simp add: pipeline_defs scenario_defs dup_market_def)

section \<open>When the run returns\<close>

lemma field_cong_columns: "columns a = columns b \<Longrightarrow> field a c = field b c"
  by (rule ext) (simp add: field_def)

lemma numeric_col_sub:
  assumes "numeric_col t c" and "columns f = columns t \<and> object_cols f = object_cols t"
    and "set (rows f) \<subseteq> set (rows t)"
  shows "numeric_col f c"
proof -
  from assms(2) have cols: "columns f = columns t" and objs: "object_cols f = object_cols t"
    by simp_all
  have fld: "field f c = field t c"
    using cols by (rule field_cong_columns)
  from assms(1) have present: "c \<in> set (columns t)" and dtype: "c \<notin> set (object_cols t)"
    and nostr: "\<not> list_ex is_Str (map (field t c) (rows t))"
    by (simp_all add: numeric_col_def)
  from nostr assms(3) have "\<not> list_ex is_Str (map (field t c) (rows f))"
    by (auto simp: list_ex_iff)
  with present dtype show ?thesis
    by (simp add: numeric_col_def cols objs fld)
qed

lemma set_unique [simp]: "set (unique xs) = set xs"
  by (simp add: unique_def)

lemma sorted_py_returns:
  assumes "list_all is_Str xs \<or> list_all (\<lambda>v. v = Null \<or> is_Num v) xs"
  shows "\<exists>ys. sorted_py xs = Inr ys"
proof (cases "list_all is_Str xs")
  case True
  then show ?thesis by (simp add: sorted_py_def)
next
  case False
  with assms have "list_all (\<lambda>v. v = Null \<or> is_Num v) xs" by simp
  then have "\<not> list_ex is_Str xs"
    by (auto simp: list_all_iff list_ex_iff)
  with False show ?thesis by (simp add: sorted_py_def)
qed

lemma protocols_of_returns:
  assumes "''Protocol'' \<in> set (columns tvl)"
    and "list_all is_Str (map (field tvl ''Protocol'') (rows tvl))"
  shows "\<exists>ps. protocols_of tvl = Inr ps"
proof -
  let ?ps = "map (field tvl ''Protocol'') (rows tvl)"
  have "list_all is_Str (unique ?ps)"
    using assms(2) unfolding list_all_iff by simp
  then have "\<exists>ys. sorted_py (unique ?ps) = Inr ys"
    by (simp add: sorted_py_returns)
  then show ?thesis using assms(1) by (simp add: protocols_of_def getcol_def)
qed

lemma category_filter_rows:
  assumes "''Category'' \<in> set (columns ft)" and "sc \<noteq> []"
  shows "category_filter ft sc
         = Inr (ft\<lparr>rows := filter (\<lambda>r. field ft ''Category'' r \<in> set sc) (rows ft)\<rparr>)"
  using assms by (simp add: category_filter_def getcol_def mask_rows_isin)

lemma filter_tvl_returns:
  assumes "''Protocol'' \<in> set (columns tvl)"
    and "categories_of tvl = Inr categories"
    and "multiselect_ok categories sc"
  shows "\<exists>ft. filter_tvl tvl sp sc = Inr ft
              \<and> (columns ft = columns tvl \<and> object_cols ft = object_cols tvl)
              \<and> set (rows ft) \<subseteq> set (rows tvl) \<and> (sp = [] \<longrightarrow> rows ft = [])"
proof -
  let ?p = "tvl\<lparr>rows := filter (\<lambda>r. field tvl ''Protocol'' r \<in> set sp) (rows tvl)\<rparr>"
  have p: "protocol_filter tvl sp = Inr ?p"
    by (rule protocol_filter_rows [OF assms(1)])
  show ?thesis
  proof (cases "sc = []")
    case True
    then have "filter_tvl tvl sp sc = Inr ?p"
      by (simp add: filter_tvl_def p category_filter_def)
    then show ?thesis by auto
  next
    case False
    with assms(3) have "categories \<noteq> []"
      by (cases sc) (auto simp: multiselect_ok_def)
    with assms(2) have "''Category'' \<in> set (columns tvl)"
      by (rule categories_need_column)
    then have "''Category'' \<in> set (columns ?p)" by simp
    from category_filter_rows [OF this False]
    have "filter_tvl tvl sp sc
          = Inr (?p\<lparr>rows := filter (\<lambda>r. field ?p ''Category'' r \<in> set sc) (rows ?p)\<rparr>)"
      by (simp only: filter_tvl_def p sum.case)
    then show ?thesis by auto
  qed
qed

lemma filter_by_keys_returns:
  assumes "''Protocol'' \<in> set (columns t)" and "''Protocol'' \<in> set (columns ft)"
  shows "\<exists>f. filter_by_keys t ft = Inr f
             \<and> (columns f = columns t \<and> object_cols f = object_cols t)
             \<and> set (rows f) \<subseteq> set (rows t) \<and> (rows ft = [] \<longrightarrow> rows f = [])"
proof -
  have "filter_by_keys t ft
        = Inr (t\<lparr>rows := filter (\<lambda>r. field t ''Protocol'' r
                                    \<in> set (map (field ft ''Protocol'') (rows ft))) (rows t)\<rparr>)"
    using assms by (simp add: filter_by_keys_def getcol_def mask_rows_isin del: set_map)
  then show ?thesis by auto
qed

lemma col_sum_returns:
  assumes "numeric_col t c"
  shows "\<exists>s. (case getcol t c of Inl e \<Rightarrow> Inl e | Inr vs \<Rightarrow> col_sum vs) = Inr s
             \<and> (rows t = [] \<longrightarrow> s = 0)"
  using assms by (auto simp: numeric_col_def getcol_def col_sum_def)

lemma total_market_cap_returns:
  assumes "if ''Market Cap (USD)'' \<in> set (columns fmkt)
           then numeric_col fmkt ''Market Cap (USD)'' else True"
  shows "\<exists>s. total_market_cap fmkt = Inr s \<and> (rows fmkt = [] \<longrightarrow> s = 0)"
proof (cases "''Market Cap (USD)'' \<in> set (columns fmkt)")
  case True
  with assms have "numeric_col fmkt ''Market Cap (USD)''" by simp
  from col_sum_returns [OF this] True show ?thesis
    by (simp add: total_market_cap_def)
next
  case False
  then show ?thesis by (simp add: total_market_cap_def)
qed

lemma format_zero: "format_currency (Some (Fin 0)) = ''$0''"
  by (simp add: format_currency_def)

lemma kpis_returns:
  assumes "numeric_col ftvl ''TVL (USD)''"
    and "if ''Market Cap (USD)'' \<in> set (columns fmkt)
         then numeric_col fmkt ''Market Cap (USD)'' else True"
  shows "\<exists>k. kpis ftvl fmkt = Inr k
             \<and> (rows ftvl = [] \<and> rows fmkt = [] \<longrightarrow> k = (''0'', ''$0'', ''$0''))"
proof -
  from col_sum_returns [OF assms(1)] obtain s
    where s: "(case getcol ftvl ''TVL (USD)'' of Inl e \<Rightarrow> Inl e | Inr vs \<Rightarrow> col_sum vs) = Inr s"
      and s0: "rows ftvl = [] \<longrightarrow> s = 0" by blast
  from total_market_cap_returns [OF assms(2)] obtain m
    where m: "total_market_cap fmkt = Inr m" and m0: "rows fmkt = [] \<longrightarrow> m = 0" by blast
  have "kpis ftvl fmkt = Inr (digits (length (rows ftvl)), format_currency (Some (Fin s)),
                              format_currency (Some (Fin m)))"
    using s m by (auto simp: kpis_def split: sum.splits)
  moreover have "digits 0 = ''0''" by (simp add: digits.simps digit_def)
  ultimately show ?thesis using s0 m0 by (auto simp: format_zero)
qed

lemma select_cols_returns:
  assumes "list_all (\<lambda>c. c \<in> set (columns t)) cs"
  shows "\<exists>s. select_cols t cs = Inr s"
proof -
  have "filter (\<lambda>c. c \<notin> set (columns t)) cs = []"
    using assms by (auto simp: filter_empty_conv list_all_iff)
  then show ?thesis by (simp add: select_cols_def)
qed

lemma overview_returns:
  assumes "''Protocol'' \<in> set (columns ftvl)" and "''Protocol'' \<in> set (columns fmkt)"
    and "list_all (\<lambda>c. c = ''Protocol'' \<or> c \<notin> set (columns fmkt)) (columns ftvl)"
  shows "\<exists>ov. overview ftvl fmkt = Inr ov"
proof -
  let ?cols = "map (\<lambda>c. if c \<noteq> ''Protocol'' \<and> c \<in> set (columns fmkt) then c @ ''_x'' else c)
                 (columns ftvl)
               @ map (\<lambda>c. if c \<in> set (columns ftvl) then c @ ''_y'' else c)
                   (filter (\<lambda>c. c \<noteq> ''Protocol'') (columns fmkt))"
  let ?ov = "\<lparr>columns = ?cols,
              object_cols =
                map (\<lambda>c. if c \<noteq> ''Protocol'' \<and> c \<in> set (columns fmkt) then c @ ''_x'' else c)
                  (object_cols ftvl)
                @ map (\<lambda>c. if c \<in> set (columns ftvl) then c @ ''_y'' else c)
                    (filter (\<lambda>c. c \<noteq> ''Protocol'') (object_cols fmkt)),
              rows = concat (map (join_row ftvl fmkt ''Protocol'') (rows ftvl))\<rparr>"
  have m: "merge_left ftvl fmkt ''Protocol'' = Inr ?ov"
    using assms(1,2) by (simp add: merge_left_def)
  have disj: "c = ''Protocol'' \<or> c \<notin> set (columns fmkt)" if "c \<in> set (columns ftvl)" for c
    using assms(3) that by (auto simp: list_all_iff)
  have left: "c \<in> set ?cols" if "c \<in> set (columns ftvl)" for c
  proof -
    have "(if c \<noteq> ''Protocol'' \<and> c \<in> set (columns fmkt) then c @ ''_x'' else c) = c"
      using disj [OF that] by auto
    then have "c \<in> (\<lambda>c. if c \<noteq> ''Protocol'' \<and> c \<in> set (columns fmkt) then c @ ''_x'' else c)
                  ` set (columns ftvl)"
      using that by (intro image_eqI [where x = c]) simp_all
    then show ?thesis by simp
  qed
  have right: "c \<in> set ?cols" if "c \<in> set (columns fmkt)" and "c \<noteq> ''Protocol''" for c
  proof -
    have "c \<notin> set (columns ftvl)" using disj [of c] that by auto
    then have "(if c \<in> set (columns ftvl) then c @ ''_y'' else c) = c" by simp
    then have "c \<in> (\<lambda>c. if c \<in> set (columns ftvl) then c @ ''_y'' else c)
                  ` set (filter (\<lambda>c. c \<noteq> ''Protocol'') (columns fmkt))"
      using that by (intro image_eqI [where x = c]) simp_all
    then show ?thesis by simp
  qed
  have "list_all (\<lambda>c. c \<in> set (columns ?ov)) (overview_cols ftvl fmkt)"
    unfolding overview_cols_def list_all_iff using left right by auto
  from select_cols_returns [OF this] obtain s
    where "select_cols ?ov (overview_cols ftvl fmkt) = Inr s" by blast
  with m show ?thesis by (simp add: overview_def)
qed

lemma nlargest_returns:
  assumes "numeric_col t c"
  shows "\<exists>r. nlargest n c t = Inr r \<and> columns r = columns t"
  using assms by (auto simp: nlargest_def numeric_col_def getcol_def Let_def)

lemma px_bar_returns:
  assumes "list_all (\<lambda>c. c \<in> set (columns df)) names"
  shows "px_bar df names = Inr ()"
proof -
  have "filter (\<lambda>c. c \<notin> set (columns df)) names = []"
    using assms by (auto simp: filter_empty_conv list_all_iff)
  then show ?thesis by (simp add: px_bar_def)
qed

lemma top_guarded_returns:
  assumes "numeric_col f c" and "list_all (\<lambda>x. x \<in> set (columns f)) cs"
    and "''Protocol'' \<in> set (columns f)"
  shows "\<exists>r. top_guarded f c cs = Inr r"
proof (cases "empty_df f")
  case True
  then show ?thesis by (simp add: top_guarded_def)
next
  case False
  from nlargest_returns [OF assms(1), of 10] obtain r
    where r: "nlargest 10 c f = Inr r" and cols: "columns r = columns f" by blast
  have "list_all (\<lambda>x. x \<in> set (columns r)) cs" using assms(2) cols by simp
  from select_cols_returns [OF this] obtain s where s: "select_cols r cs = Inr s" by blast
  have "list_all (\<lambda>x. x \<in> set (columns r)) [''Protocol'', c]"
    using assms(1,3) cols by (simp add: numeric_col_def)
  then have "px_bar r [''Protocol'', c] = Inr ()" by (rule px_bar_returns)
  with r s False show ?thesis by (simp add: top_guarded_def)
qed

lemma rankings_returns:
  assumes "numeric_col ftvl ''TVL (USD)''"
    and "''Protocol'' \<in> set (columns ftvl) \<and> ''Category'' \<in> set (columns ftvl)"
    and "numeric_col frev ''24h Revenue (USD)''"
    and "list_all (\<lambda>x. x \<in> set (columns frev)) revenue_cols"
    and "numeric_col ffees ''24h Fees (USD)''"
    and "list_all (\<lambda>x. x \<in> set (columns ffees)) fees_cols"
  shows "\<exists>rk. rankings ftvl frev ffees = Inr rk"
proof -
  from nlargest_returns [OF assms(1), of 10] obtain a
    where a: "nlargest 10 ''TVL (USD)'' ftvl = Inr a" and cols: "columns a = columns ftvl"
    by blast
  have "list_all (\<lambda>x. x \<in> set (columns a)) [''Protocol'', ''TVL (USD)'', ''Category'']"
    using assms(1,2) cols by (simp add: numeric_col_def)
  then have p: "px_bar a [''Protocol'', ''TVL (USD)'', ''Category''] = Inr ()"
    by (rule px_bar_returns)
  have "''Protocol'' \<in> set (columns frev)"
    using assms(4) by (simp add: revenue_cols_def)
  from top_guarded_returns [OF assms(3,4) this] obtain b
    where b: "top_guarded frev ''24h Revenue (USD)'' revenue_cols = Inr b" by blast
  have "''Protocol'' \<in> set (columns ffees)"
    using assms(6) by (simp add: fees_cols_def)
  from top_guarded_returns [OF assms(5,6) this] obtain c
    where c: "top_guarded ffees ''24h Fees (USD)'' fees_cols = Inr c" by blast
  show ?thesis by (simp add: rankings_def a p b c)
qed

lemma engine_returns:
  assumes req: "required_columns tvl revenue fees market"
    and cats: "categories_of tvl = Inr categories"
    and sel: "multiselect_ok categories sc"
  shows "\<exists>d. engine tvl revenue fees market sp sc = Inr d
             \<and> (sp = [] \<longrightarrow> rows (filtered_tvl d) = [] \<and> rows (filtered_fees d) = []
                   \<and> rows (filtered_revenue d) = [] \<and> rows (filtered_market d) = []
                   \<and> kpi_protocols d = ''0'' \<and> kpi_tvl d = ''$0'' \<and> kpi_market_cap d = ''$0'')"
proof -
  from req have ptvl: "''Protocol'' \<in> set (columns tvl)"
    and kinds: "list_all is_Str (map (field tvl ''Protocol'') (rows tvl))"
    and ctgy: "''Category'' \<in> set (columns tvl)"
    and ntvl: "numeric_col tvl ''TVL (USD)''"
    and crev: "list_all (\<lambda>c. c \<in> set (columns revenue)) revenue_cols"
    and nrev: "numeric_col revenue ''24h Revenue (USD)''"
    and cfees: "list_all (\<lambda>c. c \<in> set (columns fees)) fees_cols"
    and nfees: "numeric_col fees ''24h Fees (USD)''"
    and pmkt: "''Protocol'' \<in> set (columns market)"
    and nmkt: "if ''Market Cap (USD)'' \<in> set (columns market)
               then numeric_col market ''Market Cap (USD)'' else True"
    and disj: "list_all (\<lambda>c. c = ''Protocol'' \<or> c \<notin> set (columns market)) (columns tvl)"
    by (simp_all add: required_columns_def)
  have prev: "''Protocol'' \<in> set (columns revenue)"
    using crev by (simp add: revenue_cols_def)
  have pfees: "''Protocol'' \<in> set (columns fees)"
    using cfees by (simp add: fees_cols_def)
  from protocols_of_returns [OF ptvl kinds] obtain ps where ps: "protocols_of tvl = Inr ps" by blast
  from filter_tvl_returns [OF ptvl cats sel, of sp] obtain ftvl
    where ftvl: "filter_tvl tvl sp sc = Inr ftvl"
      and ctvl': "columns ftvl = columns tvl \<and> object_cols ftvl = object_cols tvl"
      and rtvl: "set (rows ftvl) \<subseteq> set (rows tvl)" and etvl: "sp = [] \<longrightarrow> rows ftvl = []"
    by blast
  have ctvl: "columns ftvl = columns tvl" using ctvl' by simp
  have pftvl: "''Protocol'' \<in> set (columns ftvl)" using ptvl ctvl by simp
  from filter_by_keys_returns [OF pfees pftvl] obtain ffees
    where ffees: "filter_by_keys fees ftvl = Inr ffees"
      and cffees': "columns ffees = columns fees \<and> object_cols ffees = object_cols fees"
      and rffees: "set (rows ffees) \<subseteq> set (rows fees)" and effees: "rows ftvl = [] \<longrightarrow> rows ffees = []"
    by blast
  from filter_by_keys_returns [OF prev pftvl] obtain frev
    where frev: "filter_by_keys revenue ftvl = Inr frev"
      and cfrev': "columns frev = columns revenue \<and> object_cols frev = object_cols revenue"
      and rfrev: "set (rows frev) \<subseteq> set (rows revenue)" and efrev: "rows ftvl = [] \<longrightarrow> rows frev = []"
    by blast
  from filter_by_keys_returns [OF pmkt pftvl] obtain fmkt
    where fmkt: "filter_by_keys market ftvl = Inr fmkt"
      and cfmkt': "columns fmkt = columns market \<and> object_cols fmkt = object_cols market"
      and rfmkt: "set (rows fmkt) \<subseteq> set (rows market)" and efmkt: "rows ftvl = [] \<longrightarrow> rows fmkt = []"
    by blast
  have cffees: "columns ffees = columns fees" using cffees' by simp
  have cfrev: "columns frev = columns revenue" using cfrev' by simp
  have cfmkt: "columns fmkt = columns market" using cfmkt' by simp
  have ft: "filter_tables tvl revenue fees market sp sc = Inr (ftvl, ffees, frev, fmkt)"
    by (simp add: filter_tables_def ftvl ffees frev fmkt)
  have nftvl: "numeric_col ftvl ''TVL (USD)''"
    using ntvl ctvl' rtvl by (rule numeric_col_sub)
  have nfrev: "numeric_col frev ''24h Revenue (USD)''"
    using nrev cfrev' rfrev by (rule numeric_col_sub)
  have nffees: "numeric_col ffees ''24h Fees (USD)''"
    using nfees cffees' rffees by (rule numeric_col_sub)
  have nfmkt: "if ''Market Cap (USD)'' \<in> set (columns fmkt)
               then numeric_col fmkt ''Market Cap (USD)'' else True"
  proof (cases "''Market Cap (USD)'' \<in> set (columns market)")
    case True
    with nmkt have "numeric_col market ''Market Cap (USD)''" by simp
    then have "numeric_col fmkt ''Market Cap (USD)''"
      using cfmkt' rfmkt by (rule numeric_col_sub)
    then show ?thesis by simp
  next
    case False
    then show ?thesis by (simp add: cfmkt)
  qed
  from kpis_returns [OF nftvl nfmkt] obtain k
    where k: "kpis ftvl fmkt = Inr k"
      and k0: "rows ftvl = [] \<and> rows fmkt = [] \<longrightarrow> k = (''0'', ''$0'', ''$0'')" by blast
  have "\<exists>ov. overview ftvl fmkt = Inr ov"
    by (rule overview_returns) (simp_all add: ctvl cfmkt ptvl pmkt disj)
  then obtain ov where ov: "overview ftvl fmkt = Inr ov" by blast
  have "\<exists>rk. rankings ftvl frev ffees = Inr rk"
    by (rule rankings_returns)
      (simp_all add: nftvl nfrev nffees cfrev cffees crev cfees ctvl ptvl ctgy)
  then obtain rk where rk: "rankings ftvl frev ffees = Inr rk" by blast
  obtain k1 k2 k3 where ks: "k = (k1, k2, k3)" by (cases k)
  obtain o1 o2 where os: "ov = (o1, o2)" by (cases ov)
  obtain r1 r2 r3 where rs: "rk = (r1, r2, r3)" by (cases rk)
  let ?d = "\<lparr>filtered_tvl = ftvl, filtered_fees = ffees, filtered_revenue = frev,
             filtered_market = fmkt, kpi_protocols = k1, kpi_tvl = k2,
             kpi_market_cap = k3, overview_df = o1, overview_shown = o2,
             top_tvl = r1, top_revenue = r2, top_fees = r3\<rparr>"
  have run: "engine tvl revenue fees market sp sc = Inr ?d"
    by (simp add: engine_def ps cats ft derive_def k ks ov os rk rs)
  have "sp = [] \<longrightarrow> rows ftvl = [] \<and> rows ffees = [] \<and> rows frev = [] \<and> rows fmkt = []
          \<and> k1 = ''0'' \<and> k2 = ''$0'' \<and> k3 = ''$0''"
    using etvl effees efrev efmkt k0 ks by auto
  with run show ?thesis by simp
qed


lemma scenario_required:
  "required_columns scenario_tvl scenario_revenue scenario_fees scenario_market"
  by (simp add: required_columns_def numeric_col_def revenue_cols_def fees_cols_def
      field_def cell_at_def scenario_defs)

text \<open>
  C5, as the code has it. With an empty protocol selection, tables that have the columns the
  script reads without a guard (\<open>Category\<close> among them, for the chart of line 142) and a
  category selection the widget can return, the run returns: the four filtered tables have no
  row and the cards show \<open>0\<close>, \<open>$0\<close> and \<open>$0\<close>. An empty category selection does
  not empty anything: the filtered TVL table is then the result of line 90.
\<close>

theorem empty_protocol_selection:
  assumes "required_columns tvl revenue fees market"
    and "categories_of tvl = Inr categories"
    and "multiselect_ok categories selected_categories"
  shows "(\<exists>d. engine tvl revenue fees market [] selected_categories = Inr d
              \<and> rows (filtered_tvl d) = [] \<and> rows (filtered_fees d) = []
              \<and> rows (filtered_revenue d) = [] \<and> rows (filtered_market d) = []
              \<and> kpi_protocols d = ''0'' \<and> kpi_tvl d = ''$0'' \<and> kpi_market_cap d = ''$0'')
         \<and> filter_tvl tvl selected_protocols [] = protocol_filter tvl selected_protocols"
proof -
  have "filter_tvl tvl selected_protocols [] = protocol_filter tvl selected_protocols"
    by (simp add: filter_tvl_def category_filter_def split: sum.splits)
  with engine_returns [OF assms, of "[]"] show ?thesis by simp
qed

theorem empty_protocol_selection_witness:
  "required_columns scenario_tvl scenario_revenue scenario_fees scenario_market
   \<and> categories_of scenario_tvl = Inr [Str ''Cat1'', Str ''Cat2'']
   \<and> multiselect_ok [Str ''Cat1'', Str ''Cat2''] [Str ''Cat1'']
   \<and> (\<exists>d. engine scenario_tvl scenario_revenue scenario_fees scenario_market [] [Str ''Cat1'']
              = Inr d
            \<and> rows (filtered_tvl d) = [] \<and> rows (filtered_fees d) = []
            \<and> rows (filtered_revenue d) = [] \<and> rows (filtered_market d) = []
            \<and> kpi_protocols d = ''0'' \<and> kpi_tvl d = ''$0'' \<and> kpi_market_cap d = ''$0'')"
proof -
  have h2: "multiselect_ok [Str ''Cat1'', Str ''Cat2''] [Str ''Cat1'']"
    by (simp add: multiselect_ok_def)
  from empty_protocol_selection [OF scenario_required scenario_categories h2]
  have "\<exists>d. engine scenario_tvl scenario_revenue scenario_fees scenario_market [] [Str ''Cat1'']
              = Inr d
            \<and> rows (filtered_tvl d) = [] \<and> rows (filtered_fees d) = []
            \<and> rows (filtered_revenue d) = [] \<and> rows (filtered_market d) = []
            \<and> kpi_protocols d = ''0'' \<and> kpi_tvl d = ''$0'' \<and> kpi_market_cap d = ''$0''"
    by (rule conjunct1)
  with scenario_required scenario_categories h2 show ?thesis by blast
qed

text \<open>
  C5 as stated fails for an empty category selection with a protocol selection that is not
  empty: in the scenario the filtered TVL table keeps both rows and the cards show \<open>2\<close> and
  \<open>$2.50B\<close>.
\<close>

theorem empty_category_selection_keeps_rows:
  "map_sum id filtered_tvl
     (engine scenario_tvl scenario_revenue scenario_fees scenario_market [Str ''A'', Str ''B''] [])
   = Inr scenario_tvl
   \<and> map_sum id kpi_protocols
       (engine scenario_tvl scenario_revenue scenario_fees scenario_market [Str ''A'', Str ''B''] [])
     = Inr ''2''
   \<and> map_sum id kpi_tvl
       (engine scenario_tvl scenario_revenue scenario_fees scenario_market [Str ''A'', Str ''B''] [])
     = Inr ''$2.50B''"
  by (simp add: pipeline_defs scenario_defs)

section \<open>Missing columns\<close>

text \<open>A TVL table without the key ends the run at line 81, with nothing produced.\<close>

lemma engine_missing_key:
  assumes "''Protocol'' \<notin> set (columns tvl)"
  shows "engine tvl revenue fees market sp sc = Inl (KeyError [''Protocol''])"
  using assms by (simp add: engine_def protocols_of_def getcol_def)

text \<open>
  C6. On a TVL table without a \<open>Category\<close> column the category step is skipped and the
  filtered TVL table is the result of line 90 alone, as claimed; but the missing column does
  cause an error: the chart of line 142 asks for \<open>Category\<close> without the guard that lines
  85 and 121 have, and the run ends there with a \<open>ValueError\<close>.
\<close>

theorem missing_category_chart_raises:
  "''Category'' \<notin> set (columns plain_tvl)
   \<and> filter_tvl plain_tvl [Str ''B''] [] = protocol_filter plain_tvl [Str ''B'']
   \<and> filter_tvl plain_tvl [Str ''B''] []
       = Inr \<lparr>columns = [''Protocol'', ''TVL (USD)''], object_cols = [''Protocol''],
              rows = [[Str ''B'', Num 7]]\<rparr>
   \<and> engine plain_tvl scenario_revenue scenario_fees scenario_market [Str ''B''] []
       = Inl (ValueError ''Category'')"
  by (simp add: pipeline_defs scenario_defs plain_tvl_def)

text \<open>
  C7. A TVL table that has its \<open>Protocol\<close> and \<open>TVL (USD)\<close> columns and lacks only the
  optional \<open>Category\<close>, with a market table that lacks the optional \<open>Market Cap (USD)\<close>
  and \<open>Current Price (USD)\<close>: the filtering and the cards go through (the missing market
  columns raise nothing), and then the run raises at line 142 because \<open>Category\<close> is
  missing, although \<open>Protocol\<close> is there.
\<close>

theorem optional_category_raises:
  "''Protocol'' \<in> set (columns plain_tvl)
   \<and> filter_tables plain_tvl scenario_revenue scenario_fees bare_market [Str ''A'', Str ''B''] []
       = Inr (plain_tvl, scenario_fees, scenario_revenue, bare_market)
   \<and> kpis plain_tvl bare_market = Inr (''2'', ''$507.00'', ''$0'')
   \<and> engine plain_tvl scenario_revenue scenario_fees bare_market [Str ''A'', Str ''B''] []
       = Inl (ValueError ''Category'')"
  by (simp add: pipeline_defs scenario_defs plain_tvl_def bare_market_def)

end
